theory Spec2Isabelle
  imports Main "HOL-Library.Sublist" "HOL-Library.Char_ord" "HOL-Library.List_Lexorder"
begin

section \<open>Python string methods used by the scripts\<close>

text \<open>
  Strings are lists of characters, and a character is a code point below 256 (ASCII and
  Latin-1). The methods below follow Python's \<^verbatim>\<open>str\<close> methods on such strings.
\<close>

text \<open>
  \<^verbatim>\<open>c.isspace()\<close>, the characters that \<^verbatim>\<open>strip()\<close> removes: the ASCII whitespace, the
  separators U+001C to U+001F, the next-line character U+0085 and the no-break space
  U+00A0.
\<close>

definition is_space :: "char \<Rightarrow> bool" where
  "is_space c = (c \<in> set [CHR '' '', CHR 0x09, CHR 0x0A, CHR 0x0B, CHR 0x0C, CHR 0x0D,
                          CHR 0x1C, CHR 0x1D, CHR 0x1E, CHR 0x1F, CHR 0x85, CHR 0xA0])"

definition str_strip :: "string \<Rightarrow> string" where
  "str_strip s = rev (dropWhile is_space (rev (dropWhile is_space s)))"

text \<open>
  The letters with another case: \<^verbatim>\<open>A\<close> to \<^verbatim>\<open>Z\<close> and U+00C0 to U+00DE without the
  multiplication sign U+00D7 are upper case, and the lower case of each stands 32 code
  points later.
\<close>

definition is_upper :: "char \<Rightarrow> bool" where
  "is_upper c = (let n = (of_char c :: nat)
                 in (0x41 \<le> n \<and> n \<le> 0x5A) \<or> (0xC0 \<le> n \<and> n \<le> 0xDE \<and> n \<noteq> 0xD7))"


definition lower_char :: "char \<Rightarrow> char" where
  "lower_char c = (if is_upper c then char_of ((of_char c :: nat) + 32) else c)"


definition str_lower :: "string \<Rightarrow> string" where
  "str_lower s = map lower_char s"



text \<open>
  \<^verbatim>\<open>s.replace(old, new)\<close>: every occurrence of \<open>old\<close>, found from the left and never
  overlapping, is replaced by \<open>new\<close>. An empty \<open>old\<close> matches before every character and
  at the end.
\<close>

function str_replace :: "string \<Rightarrow> string \<Rightarrow> string \<Rightarrow> string" where
  "str_replace old new [] = (if old = [] then new else [])"
| "str_replace old new (c # cs) =
     (if old = [] then new @ c # str_replace old new cs
      else if prefix old (c # cs) then new @ str_replace old new (drop (length old) (c # cs))
      else c # str_replace old new cs)"
  by pat_completeness auto
termination
  by (relation "measure (\<lambda>(old, new, s). length s)") (auto simp: neq_Nil_conv)

text \<open>
  \<^verbatim>\<open>s.zfill(width)\<close>: zeros are put on the left up to \<open>width\<close> characters, after a
  leading sign; a string that is already that long is returned as it is.
\<close>

definition zfill :: "nat \<Rightarrow> string \<Rightarrow> string" where
  "zfill width s =
     (if width \<le> length s then s
      else (case s of
              c # cs \<Rightarrow>
                if c = CHR ''+'' \<or> c = CHR ''-''
                then c # replicate (width - length s) (CHR ''0'') @ cs
                else replicate (width - length s) (CHR ''0'') @ s
            | [] \<Rightarrow> replicate width (CHR ''0'')))"

text \<open>
  \<^verbatim>\<open>c.isdigit()\<close>: the digits \<^verbatim>\<open>0\<close> to \<^verbatim>\<open>9\<close> and the superscript digits U+00B2, U+00B3
  and U+00B9.
\<close>

definition is_digit :: "char \<Rightarrow> bool" where
  "is_digit c = (c \<in> set ''0123456789'' \<or> c \<in> set [CHR 0xB2, CHR 0xB3, CHR 0xB9])"

text \<open>\<^verbatim>\<open>s.isdigit()\<close>: at least one character, and all of them digits.\<close>

definition isdigit :: "string \<Rightarrow> bool" where
  "isdigit s = (s \<noteq> [] \<and> list_all is_digit s)"

text \<open>\<^verbatim>\<open>sub in s\<close> on strings.\<close>

fun str_contains :: "string \<Rightarrow> string \<Rightarrow> bool" where
  "str_contains sub [] = (sub = [])"
| "str_contains sub (c # cs) = (prefix sub (c # cs) \<or> str_contains sub cs)"

section \<open>column\_detector.py\<close>

definition normalize_column_name :: "string \<Rightarrow> string" where
  "normalize_column_name col_name =
     str_replace ''-'' '' '' (str_replace ''_'' '' '' (str_lower (str_strip col_name)))"

text \<open>
  The dictionary comprehension \<^verbatim>\<open>{normalize_column_name(col): col for col in df.columns}\<close>:
  a later column overwrites an earlier one with the same normalized name.
\<close>

definition normalized_cols :: "string list \<Rightarrow> (string \<rightharpoonup> string)" where
  "normalized_cols cols = fold (\<lambda>col m. m(normalize_column_name col \<mapsto> col)) cols Map.empty"

text \<open>The loop over one role's patterns, left at the first pattern that is a key.\<close>

fun first_match :: "string list \<Rightarrow> (string \<rightharpoonup> string) \<Rightarrow> string option" where
  "first_match [] m = None"
| "first_match (pattern # patterns) m =
     (case m pattern of Some col \<Rightarrow> Some col | None \<Rightarrow> first_match patterns m)"

definition zip_patterns :: "string list" where
  "zip_patterns = [''zip'', ''zip code'', ''zipcode'', ''zcta'', ''zcta5'', ''postal code'',
                   ''postalcode'']"

definition fips_patterns :: "string list" where
  "fips_patterns = [''fips'', ''fips code'', ''fipscode'', ''geoid'', ''county fips'',
                    ''countyfips'']"

definition county_patterns :: "string list" where
  "county_patterns = [''county'', ''county name'', ''countyname'', ''county_name'', ''xcounty'']"

definition chapter_patterns :: "string list" where
  "chapter_patterns = [''chapter'', ''chapter name'', ''chaptername'', ''chapter_name'']"

definition region_patterns :: "string list" where
  "region_patterns = [''region'', ''region name'', ''regionname'', ''region_name'']"

definition division_patterns :: "string list" where
  "division_patterns = [''division'', ''division name'', ''divisionname'', ''division_name'']"

definition ecode_patterns :: "string list" where
  "ecode_patterns = [''ecode'', ''e code'', ''e_code'', ''chapter code'', ''chaptercode'',
                     ''chapter_code'']"

definition rcode_patterns :: "string list" where
  "rcode_patterns = [''rcode'', ''r code'', ''r_code'', ''region code'', ''regioncode'',
                     ''region_code'']"

definition dcode_patterns :: "string list" where
  "dcode_patterns = [''dcode'', ''d code'', ''d_code'', ''division code'', ''divisioncode'',
                     ''division_code'']"

definition state_patterns :: "string list" where
  "state_patterns = [''state'', ''state name'', ''statename'', ''state_name'', ''st'',
                     ''state code'', ''statecode'']"

definition role_patterns :: "(string \<times> string list) list" where
  "role_patterns =
     [(''Zip'', zip_patterns), (''FIPS'', fips_patterns), (''County'', county_patterns),
      (''Chapter'', chapter_patterns), (''Region'', region_patterns),
      (''Division'', division_patterns), (''ECODE'', ecode_patterns),
      (''RCODE'', rcode_patterns), (''DCODE'', dcode_patterns), (''State'', state_patterns)]"

text \<open>
  \<^verbatim>\<open>detect_columns\<close> reads the column names only. The dictionary it returns is the list
  of its items, in the order the roles are tried.
\<close>

definition detect_columns :: "string list \<Rightarrow> (string \<times> string) list" where
  "detect_columns cols =
     (let m = normalized_cols cols
      in List.map_filter (\<lambda>(role, patterns). map_option (Pair role) (first_match patterns m))
           role_patterns)"

section \<open>Tables\<close>

text \<open>
  A cell of a pandas frame is absent (\<^verbatim>\<open>NaN\<close> or \<^verbatim>\<open>None\<close>), a text or a number. Numbers are
  integers here. A frame has its column labels, in order, and its rows; a row gives the
  cell under each label, and only the labels of the frame are ever read from it. The
  labels of a frame read by \<^verbatim>\<open>read_csv\<close> are distinct.
\<close>

datatype cell = NA | S string | N int

type_synonym row = "string \<Rightarrow> cell"

record dataframe =
  columns :: "string list"
  rows :: "row list"

datatype error = KeyError "string list" | TypeError | AttributeError

text \<open>Python's \<^verbatim>\<open>str\<close> of an integer.\<close>

definition digit_char :: "nat \<Rightarrow> char" where
  "digit_char d = ''0123456789'' ! d"

fun str_nat :: "nat \<Rightarrow> string" where
  "str_nat n = (if n < 10 then [digit_char n] else str_nat (n div 10) @ [digit_char (n mod 10)])"

declare str_nat.simps [simp del]

definition str_int :: "int \<Rightarrow> string" where
  "str_int i = (if i < 0 then CHR ''-'' # str_nat (nat (- i)) else str_nat (nat i))"

text \<open>
  \<^verbatim>\<open>.astype(str)\<close> on a column. What it makes of an absent cell depends on the pandas
  release (the text \<^verbatim>\<open>nan\<close> or \<^verbatim>\<open>None\<close>, or a cell that is still absent), so that cell is
  the parameter \<open>absent\<close>.
\<close>

definition astype_str :: "cell \<Rightarrow> cell \<Rightarrow> cell" where
  "astype_str absent v = (case v of NA \<Rightarrow> absent | S s \<Rightarrow> S s | N i \<Rightarrow> S (str_int i))"

text \<open>A method of the \<^verbatim>\<open>.str\<close> accessor works on text cells; any other cell becomes absent.\<close>

definition str_method :: "(string \<Rightarrow> string) \<Rightarrow> cell \<Rightarrow> cell" where
  "str_method f v = (case v of S s \<Rightarrow> S (f s) | _ \<Rightarrow> NA)"

text \<open>\<^verbatim>\<open>df[col] = f(df[col])\<close>, cell by cell.\<close>

definition map_column :: "string \<Rightarrow> (cell \<Rightarrow> cell) \<Rightarrow> dataframe \<Rightarrow> dataframe" where
  "map_column col f df = df\<lparr>rows := map (\<lambda>r. r(col := f (r col))) (rows df)\<rparr>"

definition zip_cell :: "cell \<Rightarrow> cell \<Rightarrow> cell" where
  "zip_cell absent v =
     str_method (zfill 5) (str_method (str_replace ''.0'' '''') (astype_str absent v))"

definition fips_cell :: "cell \<Rightarrow> cell \<Rightarrow> cell" where
  "fips_cell absent v = str_method (zfill 5) (astype_str absent v)"

section \<open>Grouping and aggregation\<close>

text \<open>
  \<^verbatim>\<open>groupby\<close> sorts the groups by key; numbers come before texts, texts are compared
  character by character.
\<close>

instantiation cell :: linorder
begin

fun less_eq_cell :: "cell \<Rightarrow> cell \<Rightarrow> bool" where
  "less_eq_cell NA _ = True"
| "less_eq_cell (N a) NA = False"
| "less_eq_cell (N a) (N b) = (a \<le> b)"
| "less_eq_cell (N a) (S t) = True"
| "less_eq_cell (S s) (S t) = (s \<le> t)"
| "less_eq_cell (S s) _ = False"

definition less_cell :: "cell \<Rightarrow> cell \<Rightarrow> bool" where
  "less_cell x y = (x \<le> y \<and> \<not> y \<le> x)"

instance
proof
  fix x y z :: cell
  show "(x < y) = (x \<le> y \<and> \<not> y \<le> x)" by (simp add: less_cell_def)
  show "x \<le> x" by (cases x) simp_all
  show "x \<le> y \<Longrightarrow> y \<le> z \<Longrightarrow> x \<le> z" by (cases x; cases y; cases z) simp_all
  show "x \<le> y \<Longrightarrow> y \<le> x \<Longrightarrow> x = y" by (cases x; cases y) simp_all
  show "x \<le> y \<or> y \<le> x" by (cases x; cases y) auto
qed

end

datatype aggfunc = First | Sum

text \<open>\<^verbatim>\<open>'first'\<close> is the first cell of the group that is not absent.\<close>

definition agg_first :: "cell list \<Rightarrow> cell" where
  "agg_first vs = (case filter (\<lambda>v. v \<noteq> NA) vs of [] \<Rightarrow> NA | v # _ \<Rightarrow> v)"

text \<open>
  \<^verbatim>\<open>'sum'\<close> skips absent cells and adds the others with Python's \<^verbatim>\<open>+\<close>: numbers are
  added, texts concatenated, a number and a text raise. A group with nothing to add
  gives 0.
\<close>

fun py_add :: "cell \<Rightarrow> cell \<Rightarrow> error + cell" where
  "py_add (N a) (N b) = Inr (N (a + b))"
| "py_add (S s) (S t) = Inr (S (s @ t))"
| "py_add _ _ = Inl TypeError"

fun sum_from :: "cell \<Rightarrow> cell list \<Rightarrow> error + cell" where
  "sum_from acc [] = Inr acc"
| "sum_from acc (v # vs) =
     (case py_add acc v of Inl e \<Rightarrow> Inl e | Inr acc' \<Rightarrow> sum_from acc' vs)"

definition agg_sum :: "cell list \<Rightarrow> error + cell" where
  "agg_sum vs = (case filter (\<lambda>v. v \<noteq> NA) vs of [] \<Rightarrow> Inr (N 0) | v # rest \<Rightarrow> sum_from v rest)"

definition apply_agg :: "aggfunc \<Rightarrow> cell list \<Rightarrow> error + cell" where
  "apply_agg f vs = (case f of First \<Rightarrow> Inr (agg_first vs) | Sum \<Rightarrow> agg_sum vs)"

fun collect :: "('e + 'a) list \<Rightarrow> 'e + 'a list" where
  "collect [] = Inr []"
| "collect (x # xs) =
     (case x of
        Inl e \<Rightarrow> Inl e
      | Inr v \<Rightarrow> (case collect xs of Inl e \<Rightarrow> Inl e | Inr vs \<Rightarrow> Inr (v # vs)))"

text \<open>The keys of the groups: the distinct key cells that are not absent, sorted.\<close>

definition group_keys :: "string \<Rightarrow> row list \<Rightarrow> cell list" where
  "group_keys key rs = sort (remdups (filter (\<lambda>k. k \<noteq> NA) (map (\<lambda>r. r key) rs)))"

text \<open>The rows of one group, in the order of the frame.\<close>

definition group_rows :: "string \<Rightarrow> row list \<Rightarrow> cell \<Rightarrow> row list" where
  "group_rows key rs k = filter (\<lambda>r. r key = k) rs"

definition row_of :: "(string \<times> cell) list \<Rightarrow> row" where
  "row_of items = (\<lambda>c. case map_of items c of Some v \<Rightarrow> v | None \<Rightarrow> NA)"

definition agg_row :: "string \<Rightarrow> (string \<times> aggfunc) list \<Rightarrow> row list \<Rightarrow> cell \<Rightarrow> error + row" where
  "agg_row key spec rs k =
     (case collect (map (\<lambda>(c, f). apply_agg f (map (\<lambda>r. r c) (group_rows key rs k))) spec) of
        Inl e \<Rightarrow> Inl e
      | Inr vs \<Rightarrow> Inr (row_of ((key, k) # zip (map fst spec) vs)))"

text \<open>
  \<^verbatim>\<open>df.groupby(key).agg(spec).reset_index()\<close>. A key that the frame does not have raises
  \<^verbatim>\<open>KeyError\<close>, and so do the columns of \<open>spec\<close> that it does not have, which the error
  names in sorted order, before anything is computed.
\<close>

definition groupby_agg :: "string \<Rightarrow> (string \<times> aggfunc) list \<Rightarrow> dataframe \<Rightarrow> error + dataframe" where
  "groupby_agg key spec df =
     (if key \<notin> set (columns df) then Inl (KeyError [key])
      else if filter (\<lambda>c. c \<notin> set (columns df)) (map fst spec) \<noteq> []
      then Inl (KeyError (sort (remdups (filter (\<lambda>c. c \<notin> set (columns df)) (map fst spec)))))
      else (case collect (map (agg_row key spec (rows df)) (group_keys key (rows df))) of
              Inl e \<Rightarrow> Inl e
            | Inr rs \<Rightarrow> Inr \<lparr>columns = key # map fst spec, rows = rs\<rparr>))"

section \<open>create\_geojson\_levels.py: loading and aggregation\<close>

text \<open>Lines 33 to 35: the frame as read, with \<^verbatim>\<open>Zip\<close> and \<^verbatim>\<open>FIPS\<close> normalized.\<close>

definition load_csv :: "cell \<Rightarrow> dataframe \<Rightarrow> error + dataframe" where
  "load_csv absent df =
     (if ''Zip'' \<notin> set (columns df) then Inl (KeyError [''Zip''])
      else if ''FIPS'' \<notin> set (columns df) then Inl (KeyError [''FIPS''])
      else Inr (map_column ''FIPS'' (fips_cell absent) (map_column ''Zip'' (zip_cell absent) df)))"

definition year_cols :: "dataframe \<Rightarrow> string list" where
  "year_cols df = filter isdigit (columns df)"

definition total_cols :: "dataframe \<Rightarrow> string list" where
  "total_cols df = filter (str_contains ''Total'') (columns df)"

definition with_func :: "aggfunc \<Rightarrow> string list \<Rightarrow> (string \<times> aggfunc) list" where
  "with_func f cols = map (\<lambda>c. (c, f)) cols"

definition county_spec :: "dataframe \<Rightarrow> (string \<times> aggfunc) list" where
  "county_spec df =
     with_func First [''County'', ''State'', ''Chapter'', ''Region'', ''Division'',
                      ''ECODE'', ''RCODE'', ''DCODE'']
     @ with_func Sum (year_cols df)
     @ with_func First (total_cols df)"

definition chapter_spec :: "dataframe \<Rightarrow> (string \<times> aggfunc) list" where
  "chapter_spec df =
     with_func First [''Region'', ''Division'', ''RCODE'', ''DCODE'']
     @ with_func Sum (year_cols df)
     @ with_func First
         (filter (\<lambda>c. str_contains ''Chapter'' c \<or> str_contains ''Region'' c
                       \<or> str_contains ''Division'' c) (total_cols df))"

definition region_spec :: "dataframe \<Rightarrow> (string \<times> aggfunc) list" where
  "region_spec df =
     with_func First [''Division'', ''RCODE'', ''DCODE'']
     @ with_func Sum (year_cols df)
     @ with_func First
         (filter (\<lambda>c. str_contains ''Region'' c \<or> str_contains ''Division'' c) (total_cols df))"

definition division_spec :: "dataframe \<Rightarrow> (string \<times> aggfunc) list" where
  "division_spec df =
     with_func First [''DCODE'']
     @ with_func Sum (year_cols df)
     @ with_func First (filter (str_contains ''Division'') (total_cols df))"

definition county_agg :: "dataframe \<Rightarrow> error + dataframe" where
  "county_agg df = groupby_agg ''FIPS'' (county_spec df) df"

definition chapter_agg :: "dataframe \<Rightarrow> error + dataframe" where
  "chapter_agg df = groupby_agg ''Chapter'' (chapter_spec df) df"

definition region_agg :: "dataframe \<Rightarrow> error + dataframe" where
  "region_agg df = groupby_agg ''Region'' (region_spec df) df"

definition division_agg :: "dataframe \<Rightarrow> error + dataframe" where
  "division_agg df = groupby_agg ''Division'' (division_spec df) df"

text \<open>The four aggregations, by level, and the script from the frame as read.\<close>

datatype level = County | Chapter | Region | Division

fun level_key :: "level \<Rightarrow> string" where
  "level_key County = ''FIPS''"
| "level_key Chapter = ''Chapter''"
| "level_key Region = ''Region''"
| "level_key Division = ''Division''"

fun level_spec :: "level \<Rightarrow> dataframe \<Rightarrow> (string \<times> aggfunc) list" where
  "level_spec County = county_spec"
| "level_spec Chapter = chapter_spec"
| "level_spec Region = region_spec"
| "level_spec Division = division_spec"

fun level_agg :: "level \<Rightarrow> dataframe \<Rightarrow> error + dataframe" where
  "level_agg County = county_agg"
| "level_agg Chapter = chapter_agg"
| "level_agg Region = region_agg"
| "level_agg Division = division_agg"

definition aggregate :: "cell \<Rightarrow> level \<Rightarrow> dataframe \<Rightarrow> error + dataframe" where
  "aggregate absent lv csv =
     (case load_csv absent csv of Inl e \<Rightarrow> Inl e | Inr df \<Rightarrow> level_agg lv df)"

text \<open>The total columns a level aggregates: the name filters of lines 183, 234, 316 and 374.\<close>

fun keeps_total :: "level \<Rightarrow> string \<Rightarrow> bool" where
  "keeps_total County c = True"
| "keeps_total Chapter c =
     (str_contains ''Chapter'' c \<or> str_contains ''Region'' c \<or> str_contains ''Division'' c)"
| "keeps_total Region c = (str_contains ''Region'' c \<or> str_contains ''Division'' c)"
| "keeps_total Division c = str_contains ''Division'' c"

text \<open>The example scenario of the specification: two ZIP rows of one county.\<close>

definition example_row :: "string \<Rightarrow> int \<Rightarrow> row" where
  "example_row z v =
     row_of [(''Zip'', S z), (''FIPS'', S ''25013''), (''County'', S ''Hampden''),
             (''Chapter'', S ''Western MA''), (''Region'', S ''Northeast''),
             (''Division'', S ''Atlantic''), (''2023'', N v)]"


text \<open>The same rows in a frame that also has the state and code columns.\<close>

definition example_table_coded :: "(row \<Rightarrow> row) \<Rightarrow> (row \<Rightarrow> row) \<Rightarrow> dataframe" where
  "example_table_coded codes1 codes2 =
     \<lparr>columns = [''Zip'', ''FIPS'', ''County'', ''State'', ''Chapter'', ''Region'', ''Division'',
                 ''ECODE'', ''RCODE'', ''DCODE'', ''2023''],
      rows = [codes1 (example_row ''01001'' 10), codes2 (example_row ''01002'' 15)]\<rparr>"

definition set_codes :: "cell \<Rightarrow> cell \<Rightarrow> cell \<Rightarrow> cell \<Rightarrow> row \<Rightarrow> row" where
  "set_codes st e r d rw = rw(''State'' := st, ''ECODE'' := e, ''RCODE'' := r, ''DCODE'' := d)"

text \<open>A frame with one more column, \<^verbatim>\<open>df[col] = values\<close>, for the examples.\<close>

definition with_column :: "string \<Rightarrow> cell list \<Rightarrow> dataframe \<Rightarrow> dataframe" where
  "with_column col values df =
     \<lparr>columns = columns df @ [col],
      rows = map (\<lambda>(r, v). r(col := v)) (zip (rows df) values)\<rparr>"

text \<open>The cells of a frame, row by row, under its labels.\<close>

definition cells :: "dataframe \<Rightarrow> cell list list" where
  "cells df = map (\<lambda>r. map r (columns df)) (rows df)"



definition is_number_or_absent :: "cell \<Rightarrow> bool" where
  "is_number_or_absent v = (case v of S _ \<Rightarrow> False | _ \<Rightarrow> True)"

section \<open>column\_detector.py: standardize\_dataframe\<close>

text \<open>
  \<^verbatim>\<open>df.rename(columns=rename_map)\<close> with \<^verbatim>\<open>rename_map = {v: k for k, v in detected_cols.items()}\<close>.
  When two columns end under one label, a row gives the cell of the first of them.
\<close>

definition rename_map :: "(string \<times> string) list \<Rightarrow> (string \<rightharpoonup> string)" where
  "rename_map detected_cols = fold (\<lambda>(k, v) m. m(v \<mapsto> k)) detected_cols Map.empty"

definition renamed :: "(string \<rightharpoonup> string) \<Rightarrow> string \<Rightarrow> string" where
  "renamed m c = (case m c of Some k \<Rightarrow> k | None \<Rightarrow> c)"

definition rename_columns :: "(string \<rightharpoonup> string) \<Rightarrow> dataframe \<Rightarrow> dataframe" where
  "rename_columns m df =
     \<lparr>columns = map (renamed m) (columns df),
      rows = map (\<lambda>r. row_of (map (\<lambda>c. (renamed m c, r c)) (columns df))) (rows df)\<rparr>"

definition required_cols :: "string list" where
  "required_cols = [''Zip'', ''FIPS'', ''County'', ''Chapter'', ''Region'', ''Division'']"

text \<open>\<^verbatim>\<open>if col not in df_std.columns: df_std[col] = None\<close>\<close>

definition ensure_column :: "string \<Rightarrow> dataframe \<Rightarrow> dataframe" where
  "ensure_column col df =
     (if col \<in> set (columns df) then df
      else \<lparr>columns = columns df @ [col], rows = map (\<lambda>r. r(col := NA)) (rows df)\<rparr>)"

text \<open>
  A label that stands twice in the frame selects a frame, not a column, and the \<^verbatim>\<open>.str\<close>
  accessor on it raises \<^verbatim>\<open>AttributeError\<close>.
\<close>

definition standardize_dataframe ::
  "cell \<Rightarrow> dataframe \<Rightarrow> (string \<times> string) list \<Rightarrow> error + dataframe" where
  "standardize_dataframe absent df detected_cols =
     (let df_std = fold ensure_column required_cols
                     (rename_columns (rename_map detected_cols) df)
      in if 1 < count_list (columns df_std) ''Zip'' \<or> 1 < count_list (columns df_std) ''FIPS''
         then Inl AttributeError
         else Inr (map_column ''FIPS'' (fips_cell absent)
                     (map_column ''Zip'' (zip_cell absent) df_std)))"

text \<open>Step 1 of create\_zip\_geojson.py: detection, then standardization.\<close>

definition load_standardized :: "cell \<Rightarrow> dataframe \<Rightarrow> error + dataframe" where
  "load_standardized absent csv = standardize_dataframe absent csv (detect_columns (columns csv))"

section \<open>Boundaries, joins and features\<close>

text \<open>
  A boundary frame has attribute columns and one geometry per row. Geometries are not
  looked into, so their type is left open.
\<close>

record 'g geoframe =
  gcolumns :: "string list"
  grows :: "(row \<times> 'g) list"

record 'g feature =
  properties :: "(string \<times> cell) list"
  geometry :: "'g option"

text \<open>\<^verbatim>\<open>row.dropna().to_dict()\<close>\<close>

definition dropna_to_dict :: "string list \<Rightarrow> row \<Rightarrow> (string \<times> cell) list" where
  "dropna_to_dict cols r = map (\<lambda>c. (c, r c)) (filter (\<lambda>c. r c \<noteq> NA) cols)"

text \<open>The collection written when a level has no geometry: one feature per row.\<close>

definition data_only_features :: "dataframe \<Rightarrow> 'g feature list" where
  "data_only_features df =
     map (\<lambda>r. \<lparr>properties = dropna_to_dict (columns df) r, geometry = None\<rparr>) (rows df)"

text \<open>
  \<^verbatim>\<open>gdf.merge(df, left_on=..., right_on=..., how='inner')\<close>: the pairs of a boundary row
  and a data row with equal keys, in the order of the boundary rows.
\<close>

definition merge_inner ::
  "string \<Rightarrow> string \<Rightarrow> 'g geoframe \<Rightarrow> dataframe \<Rightarrow> ((row \<times> 'g) \<times> row) list" where
  "merge_inner left_on right_on gdf df =
     concat (map (\<lambda>l. map (Pair l) (filter (\<lambda>r. fst l left_on = r right_on) (rows df)))
               (grows gdf))"

text \<open>
  The data columns that keep their label in the merged frame: a label both frames have
  gets a suffix on either side, unless it is the key of both.
\<close>

definition kept_columns :: "string \<Rightarrow> string \<Rightarrow> 'g geoframe \<Rightarrow> dataframe \<Rightarrow> string list" where
  "kept_columns left_on right_on gdf df =
     filter (\<lambda>c. (c = right_on \<and> left_on = right_on) \<or> c \<notin> set (gcolumns gdf)) (columns df)"

definition joined_features ::
  "string \<Rightarrow> string \<Rightarrow> 'g geoframe \<Rightarrow> dataframe \<Rightarrow> 'g feature list" where
  "joined_features left_on right_on gdf df =
     map (\<lambda>(l, r). \<lparr>properties = map (\<lambda>c. (c, r c)) (kept_columns left_on right_on gdf df),
                     geometry = Some (snd l)\<rparr>)
       (merge_inner left_on right_on gdf df)"

text \<open>The county collection of create\_geojson\_levels.py, lines 186 to 223.\<close>

definition county_geojson :: "'g geoframe option \<Rightarrow> dataframe \<Rightarrow> 'g feature list" where
  "county_geojson counties_gdf agg =
     (case counties_gdf of
        Some gdf \<Rightarrow> joined_features ''FIPS'' ''FIPS'' gdf agg
      | None \<Rightarrow> data_only_features agg)"




section \<open>create\_zip\_geojson.py: boundary sources and the ZIP collection\<close>
















section \<open>Column detection\<close>

lemma fold_upd_None:
  "fold (\<lambda>col m. m(f col \<mapsto> col)) cols m0 p = None \<longleftrightarrow> (m0 p = None \<and> p \<notin> f ` set cols)"
  by (induction cols arbitrary: m0) auto

lemma fold_upd_Some:
  "fold (\<lambda>col m. m(f col \<mapsto> col)) cols m0 p = Some c \<Longrightarrow>
     m0 p = Some c \<or> (c \<in> set cols \<and> f c = p)"
proof (induction cols arbitrary: m0)
  case Nil
  then show ?case by simp
next
  case (Cons a cols)
  from Cons.prems have "fold (\<lambda>col m. m(f col \<mapsto> col)) cols (m0(f a \<mapsto> a)) p = Some c"
    by (simp only: fold_simps)
  from Cons.IH [OF this] show ?case
    by (auto split: if_splits)
qed

lemma normalized_cols_None:
  "normalized_cols cols p = None \<longleftrightarrow> p \<notin> normalize_column_name ` set cols"
  by (simp add: normalized_cols_def fold_upd_None)

lemma normalized_cols_Some:
  "normalized_cols cols p = Some c \<Longrightarrow> c \<in> set cols \<and> normalize_column_name c = p"
  using fold_upd_Some [of normalize_column_name cols Map.empty p c]
  by (simp add: normalized_cols_def)

lemma map_of_map_filter_roles:
  "distinct (map fst rps) \<Longrightarrow>
   map_of (List.map_filter (\<lambda>(role, patterns). map_option (Pair role) (g patterns)) rps) role =
     (case map_of rps role of None \<Rightarrow> None | Some patterns \<Rightarrow> g patterns)"
proof (induction rps)
  case Nil
  then show ?case by (simp add: List.map_filter_simps)
next
  case (Cons rp rps)
  obtain r ps where rp: "rp = (r, ps)" by (cases rp)
  show ?case
  proof (cases "r = role")
    case True
    with Cons.prems rp have none: "map_of rps role = None"
      by (simp add: map_of_eq_None_iff)
    have "map_of (List.map_filter (\<lambda>(role, patterns). map_option (Pair role) (g patterns)) rps) role
            = None"
      using Cons.IH Cons.prems none by simp
    with True rp none show ?thesis
      by (cases "g ps") (simp_all add: List.map_filter_simps)
  next
    case False
    with Cons rp show ?thesis
      by (cases "g ps") (auto simp: List.map_filter_simps)
  qed
qed

lemma detect_columns_Zip:
  "map_of (detect_columns cols) ''Zip'' = first_match zip_patterns (normalized_cols cols)"
  unfolding detect_columns_def Let_def
  by (subst map_of_map_filter_roles) (simp_all add: role_patterns_def)

lemma fold_upd_last:
  "p \<in> f ` set cols \<Longrightarrow>
   fold (\<lambda>col m. m(f col \<mapsto> col)) cols m0 p = Some (last (filter (\<lambda>c. f c = p) cols))"
proof (induction cols arbitrary: m0)
  case Nil
  then show ?case by simp
next
  case (Cons a cols)
  show ?case
  proof (cases "p \<in> f ` set cols")
    case True
    then have "filter (\<lambda>c. f c = p) cols \<noteq> []"
      by (auto simp: filter_empty_conv)
    with Cons.IH [OF True, of "m0(f a \<mapsto> a)"] show ?thesis by simp
  next
    case False
    with Cons.prems have a: "f a = p" by auto
    from False have e: "filter (\<lambda>c. f c = p) cols = []"
      by (auto simp: filter_empty_conv)
    have "fold (\<lambda>col m. m(f col \<mapsto> col)) cols (m0(f a \<mapsto> a)) p \<noteq> None"
      using a by (simp add: fold_upd_None)
    then obtain c where c: "fold (\<lambda>col m. m(f col \<mapsto> col)) cols (m0(f a \<mapsto> a)) p = Some c"
      by auto
    from fold_upd_Some [OF c]
    have "(m0(f a \<mapsto> a)) p = Some c \<or> (c \<in> set cols \<and> f c = p)" .
    moreover have "\<not> (c \<in> set cols \<and> f c = p)" using False by blast
    ultimately have "(m0(f a \<mapsto> a)) p = Some c" by blast
    with a have ca: "c = a" by simp
    from c have "fold (\<lambda>col m. m(f col \<mapsto> col)) (a # cols) m0 p = Some c"
      by (simp only: fold_simps)
    moreover have "last (filter (\<lambda>c. f c = p) (a # cols)) = a"
      using a e by simp
    ultimately show ?thesis using ca by (simp only:)
  qed
qed

lemma normalized_cols_last:
  "p \<in> normalize_column_name ` set cols \<Longrightarrow>
   normalized_cols cols p = Some (last (filter (\<lambda>c. normalize_column_name c = p) cols))"
  by (simp add: normalized_cols_def fold_upd_last)

lemma normalize_ZipCode: "normalize_column_name ''ZipCode'' = ''zipcode''"
  by code_simp

text \<open>
  The ZIP role in general: it goes to the last column, in the order of the table, whose
  normalized name is the first alias of the list that is the normalized name of any column.
\<close>

lemma first_match_find:
  "first_match patterns m =
     (case find (\<lambda>p. m p \<noteq> None) patterns of None \<Rightarrow> None | Some p \<Rightarrow> m p)"
  by (induction patterns) (auto split: option.splits)

lemma detect_columns_Zip_last:
  "map_of (detect_columns cols) ''Zip'' =
     map_option (\<lambda>p. last (filter (\<lambda>c. normalize_column_name c = p) cols))
       (find (\<lambda>p. p \<in> normalize_column_name ` set cols) zip_patterns)"
proof -
  have eq: "(\<lambda>p. normalized_cols cols p \<noteq> None) = (\<lambda>p. p \<in> normalize_column_name ` set cols)"
    by (rule ext) (simp add: normalized_cols_None)
  have fm: "map_of (detect_columns cols) ''Zip'' =
      (case find (\<lambda>p. p \<in> normalize_column_name ` set cols) zip_patterns of
         None \<Rightarrow> None | Some p \<Rightarrow> normalized_cols cols p)"
    by (simp only: detect_columns_Zip first_match_find eq)
  show ?thesis
  proof (cases "find (\<lambda>p. p \<in> normalize_column_name ` set cols) zip_patterns")
    case None
    then show ?thesis by (simp add: fm)
  next
    case (Some p)
    then have "p \<in> normalize_column_name ` set cols" by (auto simp: find_Some_iff)
    from normalized_cols_last [OF this] Some show ?thesis
      by (simp add: fm)
  qed
qed

text \<open>
  Claim C8 says that every table with the columns \<^verbatim>\<open>ZipCode\<close> and \<^verbatim>\<open>zcta5\<close> gives the ZIP role
  to \<^verbatim>\<open>ZipCode\<close>, whatever the order of its columns. The order matters when two columns have
  the normalized name \<^verbatim>\<open>zipcode\<close>, for the later one overwrites the earlier one in the
  dictionary of normalized names: \<^verbatim>\<open>ZIPCODE\<close> after \<^verbatim>\<open>ZipCode\<close> takes the role, \<^verbatim>\<open>ZIPCODE\<close>
  before \<^verbatim>\<open>ZipCode\<close> does not. A column that normalizes to one of the earlier aliases
  \<^verbatim>\<open>zip\<close> and \<^verbatim>\<open>zip code\<close> takes the role wherever it stands.
\<close>

theorem zip_alias_counterexample:
  "map_of (detect_columns [''ZipCode'', ''ZIPCODE'', ''zcta5'']) ''Zip'' = Some ''ZIPCODE''
   \<and> map_of (detect_columns [''ZIPCODE'', ''ZipCode'', ''zcta5'']) ''Zip'' = Some ''ZipCode''
   \<and> map_of (detect_columns [''ZipCode'', ''zcta5'', ''zip'']) ''Zip'' = Some ''zip''
   \<and> map_of (detect_columns [''Zip Code'', ''ZipCode'', ''zcta5'']) ''Zip'' = Some ''Zip Code''"
  by code_simp

text \<open>
  C8, as amended: in a table with the columns \<^verbatim>\<open>ZipCode\<close> and \<^verbatim>\<open>zcta5\<close>, in any order and
  among any other columns, the ZIP role goes to \<^verbatim>\<open>ZipCode\<close> exactly when no column
  normalizes to one of the earlier aliases \<^verbatim>\<open>zip\<close> and \<^verbatim>\<open>zip code\<close> and \<^verbatim>\<open>ZipCode\<close> is the
  last of the columns that normalize to \<^verbatim>\<open>zipcode\<close>. The column \<^verbatim>\<open>zcta5\<close> never takes the
  role from \<^verbatim>\<open>ZipCode\<close>, before it or after it.
\<close>

theorem zip_alias_precedence:
  assumes "''ZipCode'' \<in> set cols" and "''zcta5'' \<in> set cols"
  shows "map_of (detect_columns cols) ''Zip'' = Some ''ZipCode'' \<longleftrightarrow>
           ''zip'' \<notin> normalize_column_name ` set cols
           \<and> ''zip code'' \<notin> normalize_column_name ` set cols
           \<and> last (filter (\<lambda>c. normalize_column_name c = ''zipcode'') cols) = ''ZipCode''"
proof -
  let ?N = "normalize_column_name ` set cols"
  let ?r = "map_of (detect_columns cols) ''Zip''"
  have zc: "''zipcode'' \<in> ?N"
    using assms(1) normalize_ZipCode by (metis image_eqI)
  have r: "?r = first_match zip_patterns (normalized_cols cols)"
    by (rule detect_columns_Zip)
  show ?thesis
  proof (cases "''zip'' \<in> ?N")
    case True
    then obtain c where c: "normalized_cols cols ''zip'' = Some c"
      by (auto simp: normalized_cols_last)
    from normalized_cols_Some [OF c] have "c \<noteq> ''ZipCode''"
      using normalize_ZipCode by auto
    with c True show ?thesis by (simp add: r zip_patterns_def)
  next
    case nz: False
    then have z: "normalized_cols cols ''zip'' = None" by (simp add: normalized_cols_None)
    show ?thesis
    proof (cases "''zip code'' \<in> ?N")
      case True
      then obtain c where c: "normalized_cols cols ''zip code'' = Some c"
        by (auto simp: normalized_cols_last)
      from normalized_cols_Some [OF c] have "c \<noteq> ''ZipCode''"
        using normalize_ZipCode by auto
      with c z True show ?thesis by (simp add: r zip_patterns_def)
    next
      case False
      then have "normalized_cols cols ''zip code'' = None" by (simp add: normalized_cols_None)
      with z nz False normalized_cols_last [OF zc] show ?thesis
        by (simp add: r zip_patterns_def)
    qed
  qed
qed

theorem zip_alias_precedence_witness:
  "map_of (detect_columns [''zcta5'', ''County Name'', ''ZipCode'']) ''Zip'' = Some ''ZipCode''
   \<and> map_of (detect_columns [''ZipCode'', ''County Name'', ''zcta5'']) ''Zip'' = Some ''ZipCode''
   \<and> map_of (detect_columns [''ZIPCODE'', ''zcta5'', ''ZipCode'']) ''Zip'' = Some ''ZipCode''
   \<and> map_of (detect_columns [''ZipCode'', ''zcta5'', ''ZIPCODE'']) ''Zip'' \<noteq> Some ''ZipCode''"
proof -
  have n1: "normalize_column_name ''zcta5'' = ''zcta5''" by code_simp
  have n2: "normalize_column_name ''County Name'' = ''county name''" by code_simp
  have n3: "normalize_column_name ''ZipCode'' = ''zipcode''" by code_simp
  have n4: "normalize_column_name ''ZIPCODE'' = ''zipcode''" by code_simp
  show ?thesis
    using zip_alias_precedence [of "[''zcta5'', ''County Name'', ''ZipCode'']"]
      zip_alias_precedence [of "[''ZipCode'', ''County Name'', ''zcta5'']"]
      zip_alias_precedence [of "[''ZIPCODE'', ''zcta5'', ''ZipCode'']"]
      zip_alias_precedence [of "[''ZipCode'', ''zcta5'', ''ZIPCODE'']"]
    by (simp add: n1 n2 n3 n4)
qed


section \<open>Identifier normalization\<close>

lemma str_replace_absent:
  "old \<noteq> [] \<Longrightarrow> \<not> str_contains old s \<Longrightarrow> str_replace old new s = s"
  by (induction s) auto

lemma dot0_prefix_append:
  "\<not> prefix ''.0'' (c # cs) \<Longrightarrow> \<not> prefix ''.0'' (c # cs @ ''.0'' @ b)"
  by (cases cs) auto

lemma str_replace_dot0_first:
  "\<not> str_contains ''.0'' a \<Longrightarrow>
   str_replace ''.0'' new (a @ ''.0'' @ b) = a @ new @ str_replace ''.0'' new b"
proof (induction a)
  case Nil
  show ?case by simp
next
  case (Cons c cs)
  then have np: "\<not> prefix ''.0'' (c # cs)" and nc: "\<not> str_contains ''.0'' cs" by simp_all
  from dot0_prefix_append [OF np] have "\<not> prefix ''.0'' (c # cs @ ''.0'' @ b)" .
  then have "str_replace ''.0'' new (c # cs @ ''.0'' @ b) = c # str_replace ''.0'' new (cs @ ''.0'' @ b)"
    by (simp only: str_replace.simps) simp
  then show ?case using Cons.IH [OF nc] by simp
qed

lemma length_zfill: "length (zfill w s) = max w (length s)"
  by (cases s) (auto simp: zfill_def)

lemma zfill_long: "w \<le> length s \<Longrightarrow> zfill w s = s"
  by (simp add: zfill_def)

lemma set_zfill: "set s \<subseteq> set (zfill w s)"
  by (cases s) (auto simp: zfill_def)

lemma zip_cell_text: "zip_cell absent (S s) = S (zfill 5 (str_replace ''.0'' '''' s))"
  by (simp add: zip_cell_def astype_str_def str_method_def)

lemma fips_cell_text: "fips_cell absent (S s) = S (zfill 5 s)"
  by (simp add: fips_cell_def astype_str_def str_method_def)

text \<open>
  C3, as amended: on a text value, the Zip normalization removes every occurrence of
  \<^verbatim>\<open>.0\<close>, wherever it stands (the first occurrence is cut out and the rest of the value is
  treated the same way), so a trailing \<^verbatim>\<open>.0\<close> goes and a value without \<^verbatim>\<open>.0\<close> is kept;
  the result is then padded with zeros on the left to at least 5 characters, and a
  longer result is kept whole.
\<close>

theorem zip_normalization:
  "(\<not> str_contains ''.0'' a \<longrightarrow>
      zip_cell absent (S (a @ ''.0'' @ b)) = S (zfill 5 (a @ str_replace ''.0'' '''' b)))
   \<and> (\<not> str_contains ''.0'' s \<longrightarrow> zip_cell absent (S s) = S (zfill 5 s))
   \<and> length (zfill 5 t) = max 5 (length t)
   \<and> (5 \<le> length t \<longrightarrow> zfill 5 t = t)"
  using str_replace_dot0_first [of a "[]" b]
  by (simp add: zip_cell_text str_replace_absent length_zfill zfill_long)

theorem zip_normalization_witness:
  "zip_cell NA (S ''1.05'') = S ''00015'' \<and> zip_cell NA (S ''1001.0'') = S ''01001''
   \<and> zip_cell NA (S ''1001'') = S ''01001'' \<and> zfill 5 ''123456'' = ''123456''"
proof -
  have a: "\<not> str_contains ''.0'' ''1''" "\<not> str_contains ''.0'' ''1001''" by simp_all
  have r: "str_replace ''.0'' '''' ''5'' = ''5''" "str_replace ''.0'' '''' [] = []" by simp_all
  have z: "zfill 5 ''15'' = ''00015''" "zfill 5 ''1001'' = ''01001''" by code_simp+
  show ?thesis
    using zip_normalization [of "''1''" NA "''5''" "''1001''" "''123456''"]
      zip_normalization [of "''1001''" NA "[]" "''1001''" "''123456''"] a
    by (simp add: r z)
qed

text \<open>
  Claim C3 says that only a trailing \<^verbatim>\<open>.0\<close> is stripped and that the result has the fixed
  width 5. The code removes \<^verbatim>\<open>.0\<close> inside \<^verbatim>\<open>1.05\<close> and \<^verbatim>\<open>501.00\<close> too, and leaves a value of
  six characters at six.
\<close>

theorem zip_normalization_counterexample:
  "zip_cell (S ''nan'') (S ''1.05'') = S ''00015''
   \<and> zip_cell (S ''nan'') (S ''501.00'') = S ''05010''
   \<and> zip_cell (S ''nan'') (S ''123456'') = S ''123456''"
  by code_simp

section \<open>Chapter names as join keys\<close>














section \<open>Grouping and aggregation: general facts\<close>

lemma collect_map_Inr: "collect (map Inr ys) = Inr ys"
  by (induction ys) simp_all

lemma collect_Inr_D: "collect xs = Inr ys \<Longrightarrow> xs = map Inr ys"
proof (induction xs arbitrary: ys)
  case Nil
  then show ?case by simp
next
  case (Cons x xs)
  from Cons.prems obtain v vs where x: "x = Inr v" and c: "collect xs = Inr vs" and ys: "ys = v # vs"
    by (auto split: sum.splits)
  from Cons.IH [OF c] x ys show ?case by simp
qed

lemma collect_Inr: "collect xs = Inr ys \<longleftrightarrow> xs = map Inr ys"
  using collect_Inr_D collect_map_Inr by blast

lemma map_Inr_pointwise:
  "map G ks = map Inr rws \<Longrightarrow> (\<And>k r. k \<in> set ks \<Longrightarrow> G k = Inr r \<Longrightarrow> h r = h' k)
     \<Longrightarrow> map h rws = map h' ks"
proof (induction ks arbitrary: rws)
  case Nil
  then show ?case by simp
next
  case (Cons k ks)
  then obtain r rs where rws: "rws = r # rs" by (cases rws) auto
  with Cons.prems(1) have g: "G k = Inr r" and rest: "map G ks = map Inr rs" by simp_all
  from Cons.prems(2) [of k r] g have "h r = h' k" by simp
  moreover have "map h rs = map h' ks"
    using Cons.IH [OF rest] Cons.prems(2) by simp
  ultimately show ?case using rws by simp
qed

lemma map_Inr_member:
  "map G ks = map Inr rws \<Longrightarrow> r \<in> set rws \<Longrightarrow> \<exists>k\<in>set ks. G k = Inr r"
proof (induction ks arbitrary: rws)
  case Nil
  then show ?case by simp
next
  case (Cons k ks)
  then obtain r' rs where rws: "rws = r' # rs" by (cases rws) auto
  with Cons show ?case by auto
qed


lemma map_of_zip_collected_None:
  "map F spec = map Inr vs \<Longrightarrow> map_of spec c = None \<Longrightarrow>
     map_of (zip (map fst spec) vs) c = None"
proof -
  assume a: "map F spec = map Inr vs" and n: "map_of spec c = None"
  from a have "length spec = length vs" by (metis length_map)
  moreover from n have "c \<notin> fst ` set spec" by (simp add: map_of_eq_None_iff)
  ultimately have "c \<notin> fst ` set (zip (map fst spec) vs)"
    by (metis length_map map_fst_zip set_map)
  then show ?thesis by (simp add: map_of_eq_None_iff)
qed

lemma groupby_agg_Inr:
  assumes "groupby_agg key spec df = Inr agg"
  shows "columns agg = key # map fst spec"
    and "key \<in> set (columns df)"
    and "set (map fst spec) \<subseteq> set (columns df)"
    and "map (agg_row key spec (rows df)) (group_keys key (rows df)) = map Inr (rows agg)"
proof -
  from assms show k: "key \<in> set (columns df)"
    by (auto simp: groupby_agg_def split: if_splits)
  from assms have f: "filter (\<lambda>c. c \<notin> set (columns df)) (map fst spec) = []"
    by (auto simp: groupby_agg_def split: if_splits)
  then show "set (map fst spec) \<subseteq> set (columns df)"
    by (auto simp: filter_empty_conv)
  from assms k f obtain rs where
    c: "collect (map (agg_row key spec (rows df)) (group_keys key (rows df))) = Inr rs"
    and agg: "agg = \<lparr>columns = key # map fst spec, rows = rs\<rparr>"
    by (auto simp: groupby_agg_def split: sum.splits)
  from agg show "columns agg = key # map fst spec" by simp
  from c agg show "map (agg_row key spec (rows df)) (group_keys key (rows df)) = map Inr (rows agg)"
    by (simp add: collect_Inr)
qed

lemma agg_row_key: "agg_row key spec rs k = Inr r \<Longrightarrow> r key = k"
  by (auto simp: agg_row_def row_of_def split: sum.splits)


lemma agg_row_other:
  assumes "agg_row key spec rs k = Inr r" and "c \<noteq> key" and "map_of spec c = None"
  shows "r c = NA"
proof -
  let ?F = "\<lambda>(c, f). apply_agg f (map (\<lambda>r. r c) (group_rows key rs k))"
  from assms(1) obtain vs where c: "collect (map ?F spec) = Inr vs"
    and r: "r = row_of ((key, k) # zip (map fst spec) vs)"
    by (auto simp: agg_row_def split: sum.splits)
  from c have "map ?F spec = map Inr vs" by (simp add: collect_Inr)
  from map_of_zip_collected_None [OF this assms(3)] r assms(2) show ?thesis
    by (simp add: row_of_def)
qed

lemma set_group_keys: "set (group_keys key rs) = (\<lambda>r. r key) ` set rs - {NA}"
  by (auto simp: group_keys_def)


lemma groupby_agg_keys:
  assumes "groupby_agg key spec df = Inr agg"
  shows "map (\<lambda>r. r key) (rows agg) = group_keys key (rows df)"
proof -
  have "map (\<lambda>r. r key) (rows agg) = map (\<lambda>k. k) (group_keys key (rows df))"
    by (rule map_Inr_pointwise [OF groupby_agg_Inr(4) [OF assms]]) (simp add: agg_row_key)
  then show ?thesis by simp
qed






section \<open>The aggregation levels\<close>

lemma map_of_with_func: "map_of (with_func f cols) c = (if c \<in> set cols then Some f else None)"
  by (induction cols) (auto simp: with_func_def)

lemma str_contains_set: "str_contains sub s \<Longrightarrow> set sub \<subseteq> set s"
proof (induction s)
  case Nil
  then show ?case by simp
next
  case (Cons c cs)
  from Cons.prems have "prefix sub (c # cs) \<or> str_contains sub cs" by simp
  then show ?case
  proof
    assume "prefix sub (c # cs)"
    then show ?thesis by (rule set_mono_prefix)
  next
    assume "str_contains sub cs"
    from Cons.IH [OF this] show ?thesis by auto
  qed
qed

lemma isdigit_not_total: "isdigit y \<Longrightarrow> \<not> str_contains ''Total'' y"
proof
  assume d: "isdigit y" and t: "str_contains ''Total'' y"
  from str_contains_set [OF t] have "CHR ''T'' \<in> set y" by simp
  moreover from d have "\<forall>c\<in>set y. is_digit c" by (simp add: isdigit_def list_all_iff)
  ultimately have "is_digit CHR ''T''" by blast
  then show False by (simp add: is_digit_def)
qed

lemma level_agg_groupby: "level_agg lv df = groupby_agg (level_key lv) (level_spec lv df) df"
  by (cases lv) (simp_all add: county_agg_def chapter_agg_def region_agg_def division_agg_def)

lemma plain_names:
  "list_all (\<lambda>c. \<not> isdigit c \<and> \<not> str_contains ''Total'' c)
     [''FIPS'', ''Zip'', ''County'', ''State'', ''Chapter'', ''Region'', ''Division'', ''ECODE'',
      ''RCODE'', ''DCODE'']"
  by code_simp

lemma level_key_plain: "\<not> isdigit (level_key lv)" "\<not> str_contains ''Total'' (level_key lv)"
  using plain_names by (cases lv; simp)+

lemma fixed_not_digit:
  "c \<in> set [''County'', ''State'', ''Chapter'', ''Region'', ''Division'', ''ECODE'', ''RCODE'', ''DCODE'']
     \<Longrightarrow> \<not> isdigit c \<and> \<not> str_contains ''Total'' c"
  using plain_names unfolding list_all_iff by (simp del: str_contains.simps) blast


lemma spec_total:
  assumes "c \<in> set (total_cols df)"
  shows "map_of (level_spec lv df) c = (if keeps_total lv c then Some First else None)"
proof -
  from assms have t: "str_contains ''Total'' c" by (simp add: total_cols_def)
  then have nf: "c \<notin> set [''County'', ''State'', ''Chapter'', ''Region'', ''Division'', ''ECODE'', ''RCODE'', ''DCODE'']"
    using fixed_not_digit by blast
  from t have ny: "c \<notin> set (year_cols df)"
    using isdigit_not_total by (auto simp: year_cols_def)
  from nf ny assms show ?thesis
    by (cases lv)
      (simp_all add: county_spec_def chapter_spec_def region_spec_def division_spec_def
         map_add_def map_of_with_func)
qed

lemma load_csv_Inr:
  assumes "load_csv absent csv = Inr df"
  shows "columns df = columns csv"
    and "rows df = map (\<lambda>r. r(''Zip'' := zip_cell absent (r ''Zip''),
                               ''FIPS'' := fips_cell absent (r ''FIPS''))) (rows csv)"
proof -
  from assms
  have df: "df = map_column ''FIPS'' (fips_cell absent) (map_column ''Zip'' (zip_cell absent) csv)"
    by (simp add: load_csv_def split: if_splits)
  show "columns df = columns csv" by (simp add: df map_column_def)
  show "rows df = map (\<lambda>r. r(''Zip'' := zip_cell absent (r ''Zip''),
                               ''FIPS'' := fips_cell absent (r ''FIPS''))) (rows csv)"
    by (simp add: df map_column_def comp_def)
qed





section \<open>Joins with the boundaries\<close>

lemma merge_inner_member:
  "(l, r) \<in> set (merge_inner left_on right_on gdf df) \<longleftrightarrow>
     l \<in> set (grows gdf) \<and> r \<in> set (rows df) \<and> fst l left_on = r right_on"
  by (auto simp: merge_inner_def)

lemma joined_features_member:
  assumes "f \<in> set (joined_features left_on right_on gdf df)"
  shows "\<exists>l r. l \<in> set (grows gdf) \<and> r \<in> set (rows df) \<and> fst l left_on = r right_on
           \<and> properties f = map (\<lambda>c. (c, r c)) (kept_columns left_on right_on gdf df)
           \<and> geometry f = Some (snd l)"
proof -
  from assms obtain l r where m: "(l, r) \<in> set (merge_inner left_on right_on gdf df)"
    and f: "f = \<lparr>properties = map (\<lambda>c. (c, r c)) (kept_columns left_on right_on gdf df),
                  geometry = Some (snd l)\<rparr>"
    by (auto simp: joined_features_def)
  from m have "l \<in> set (grows gdf) \<and> r \<in> set (rows df) \<and> fst l left_on = r right_on"
    by (simp add: merge_inner_member)
  with f show ?thesis by (intro exI [of _ l] exI [of _ r]) simp
qed

lemma map_of_columns: "c \<in> set cols \<Longrightarrow> map_of (map (\<lambda>c. (c, r c)) cols) c = Some (r c)"
  by (induction cols) auto

lemma groupby_agg_has_key:
  assumes "groupby_agg key spec df = Inr agg" and "r \<in> set (rows df)" and "r key \<noteq> NA"
  shows "\<exists>rec\<in>set (rows agg). rec key = r key"
proof -
  from assms(2,3) have "r key \<in> set (group_keys key (rows df))"
    by (simp add: set_group_keys)
  then have "r key \<in> set (map (\<lambda>r. r key) (rows agg))"
    by (simp only: groupby_agg_keys [OF assms(1)])
  then show ?thesis by auto
qed

lemma dot_in_zfill: "CHR ''.'' \<in> set (zfill w (s @ ''.0''))"
  using set_zfill [of "s @ ''.0''" w] by auto

lemma zfill_dot0: "suffix ''.0'' (zfill w (s @ ''.0''))"
proof (cases "w \<le> length (s @ ''.0'')")
  case True
  then have "zfill w (s @ ''.0'') = s @ ''.0''" by (rule zfill_long)
  then show ?thesis by (simp only: suffix_def) blast
next
  case False
  let ?z = "replicate (w - length (s @ ''.0'')) CHR ''0''"
  show ?thesis
  proof (cases s)
    case Nil
    with False have "zfill w (s @ ''.0'') = ?z @ ''.0''" by (simp add: zfill_def)
    then show ?thesis by (simp only: suffix_def) blast
  next
    case (Cons c cs)
    show ?thesis
    proof (cases "c = CHR ''+'' \<or> c = CHR ''-''")
      case True
      with False Cons have "zfill w (s @ ''.0'') = (c # ?z @ cs) @ ''.0''"
        by (simp add: zfill_def)
      then show ?thesis by (simp only: suffix_def) blast
    next
      case nosign: False
      with False Cons have "zfill w (s @ ''.0'') = (?z @ s) @ ''.0''"
        by (simp add: zfill_def)
      then show ?thesis by (simp only: suffix_def) blast
    qed
  qed
qed

lemma digits_no_dot: "isdigit k \<Longrightarrow> CHR ''.'' \<notin> set k"
proof
  assume d: "isdigit k" and "CHR ''.'' \<in> set k"
  moreover from d have "\<forall>c\<in>set k. is_digit c" by (simp add: isdigit_def list_all_iff)
  ultimately have "is_digit CHR ''.''" by blast
  then show False by (simp add: is_digit_def)
qed

text \<open>
  C9: the FIPS normalization only makes the value a text and pads it. A value that ends in
  \<^verbatim>\<open>.0\<close> keeps that ending; with four or more characters before it, the value is kept as it
  is and is longer than 5 characters. The rows with such a value make a county record
  under it, and when every county boundary has a key of five digits, no feature of the
  county collection with geometry has that key: the inner join leaves the record out.
\<close>

theorem fips_not_stripped:
  assumes "load_csv absent csv = Inr df" and "county_agg df = Inr agg"
    and "r \<in> set (rows csv)" and "r ''FIPS'' = S (s @ ''.0'')"
    and "\<forall>(a, g)\<in>set (grows counties_gdf). \<exists>k. a ''FIPS'' = S k \<and> length k = 5 \<and> isdigit k"
  shows "fips_cell absent (S (s @ ''.0'')) = S (zfill 5 (s @ ''.0''))
    \<and> suffix ''.0'' (zfill 5 (s @ ''.0''))
    \<and> (4 \<le> length s \<longrightarrow> zfill 5 (s @ ''.0'') = s @ ''.0'' \<and> 5 < length (zfill 5 (s @ ''.0'')))
    \<and> (\<exists>rec\<in>set (rows agg). rec ''FIPS'' = S (zfill 5 (s @ ''.0'')))
    \<and> (\<forall>f\<in>set (county_geojson (Some counties_gdf) agg).
          map_of (properties f) ''FIPS'' \<noteq> Some (S (zfill 5 (s @ ''.0''))))"
proof -
  let ?v = "zfill 5 (s @ ''.0'')"
  have 1: "fips_cell absent (S (s @ ''.0'')) = S ?v" by (rule fips_cell_text)
  have 2: "suffix ''.0'' ?v" by (rule zfill_dot0)
  have 3: "4 \<le> length s \<longrightarrow> ?v = s @ ''.0'' \<and> 5 < length ?v"
    by (simp add: zfill_long)
  have g: "groupby_agg ''FIPS'' (county_spec df) df = Inr agg"
    using assms(2) by (simp add: county_agg_def)
  let ?r' = "r(''Zip'' := zip_cell absent (r ''Zip''), ''FIPS'' := fips_cell absent (r ''FIPS''))"
  have "?r' \<in> set (rows df)"
    using assms(3) by (simp add: load_csv_Inr(2) [OF assms(1)])
  moreover have "?r' ''FIPS'' = S ?v" using assms(4) 1 by simp
  ultimately have 4: "\<exists>rec\<in>set (rows agg). rec ''FIPS'' = S ?v"
    using groupby_agg_has_key [OF g, of ?r'] by auto
  have 5: "map_of (properties f) ''FIPS'' \<noteq> Some (S ?v)"
    if f: "f \<in> set (county_geojson (Some counties_gdf) agg)" for f
  proof -
    from f have "f \<in> set (joined_features ''FIPS'' ''FIPS'' counties_gdf agg)"
      by (simp add: county_geojson_def)
    from joined_features_member [OF this] obtain l rec where l: "l \<in> set (grows counties_gdf)"
      and eq: "fst l ''FIPS'' = rec ''FIPS''"
      and p: "properties f = map (\<lambda>c. (c, rec c)) (kept_columns ''FIPS'' ''FIPS'' counties_gdf agg)"
      by blast
    have "''FIPS'' \<in> set (kept_columns ''FIPS'' ''FIPS'' counties_gdf agg)"
      by (simp add: kept_columns_def groupby_agg_Inr(1) [OF g])
    then have m: "map_of (properties f) ''FIPS'' = Some (rec ''FIPS'')"
      by (simp only: p map_of_columns)
    from l assms(5) obtain k where k: "fst l ''FIPS'' = S k" "isdigit k"
      by (cases l) auto
    from k(2) have "CHR ''.'' \<notin> set k" by (rule digits_no_dot)
    with dot_in_zfill [of 5 s] have "k \<noteq> ?v" by auto
    moreover from eq k(1) have "rec ''FIPS'' = S k" by simp
    ultimately show ?thesis using m by simp
  qed
  from 5 have "\<forall>f\<in>set (county_geojson (Some counties_gdf) agg).
          map_of (properties f) ''FIPS'' \<noteq> Some (S ?v)" by blast
  with 1 2 3 4 show ?thesis by (intro conjI)
qed

theorem fips_not_stripped_witness:
  "fips_cell NA (S ''25013.0'') = S ''25013.0''
   \<and> length (county_geojson
        (Some \<lparr>gcolumns = [''FIPS''], grows = [(row_of [(''FIPS'', S ''25013'')], ())]\<rparr>)
        (projr (county_agg (projr (load_csv NA
           (example_table_coded (\<lambda>r. r(''FIPS'' := S ''25013.0'')) id)))))) = 1
   \<and> list_all (\<lambda>f. map_of (properties f) ''FIPS'' \<noteq> Some (S ''25013.0''))
       (county_geojson
        (Some \<lparr>gcolumns = [''FIPS''], grows = [(row_of [(''FIPS'', S ''25013'')], ())]\<rparr>)
        (projr (county_agg (projr (load_csv NA
           (example_table_coded (\<lambda>r. r(''FIPS'' := S ''25013.0'')) id))))))"
proof -
  let ?csv = "example_table_coded (\<lambda>r. r(''FIPS'' := S ''25013.0'')) id"
  let ?gdf = "\<lparr>gcolumns = [''FIPS''], grows = [(row_of [(''FIPS'', S ''25013'')], ())]\<rparr>"
  let ?df = "projr (load_csv NA ?csv)"
  let ?agg = "projr (county_agg ?df)"
  let ?r = "(example_row ''01001'' 10)(''FIPS'' := S ''25013.0'')"
  have l: "\<not> isl (load_csv NA ?csv)" by code_simp
  have a: "\<not> isl (county_agg ?df)" by code_simp
  have n: "length (county_geojson (Some ?gdf) ?agg) = 1" by code_simp
  have d: "isdigit ''25013''" by code_simp
  have z: "zfill 5 (''25013'' @ ''.0'') = ''25013.0''" by (simp add: zfill_long)
  from l have 1: "load_csv NA ?csv = Inr ?df" by simp
  from a have 2: "county_agg ?df = Inr ?agg" by simp
  have 3: "?r \<in> set (rows ?csv)" by (simp add: example_table_coded_def)
  have 4: "?r ''FIPS'' = S (''25013'' @ ''.0'')" by simp
  have 5: "\<forall>(a, g)\<in>set (grows ?gdf). \<exists>k. a ''FIPS'' = S k \<and> length k = 5 \<and> isdigit k"
    using d by (simp add: row_of_def)
  from fips_not_stripped [OF 1 2 3 4 5] n show ?thesis
    by (simp only: z list_all_iff) simp
qed





section \<open>The ZIP collection when the boundary sources fail\<close>









end
